theory Spec2Isabelle
  imports Main "HOL-Library.AList"
begin

section \<open>JavaScript values\<close>

text \<open>
  The values that flow through \<^verbatim>\<open>lib/MediaObject.js\<close>. \<open>JFun n\<close> is a function from
  outside the file (of application code, or built in), opaque and identified by \<open>n\<close>;
  \<open>JRef n\<close> is a reference to an object from outside the file (the parent, a pipeline,
  the proxy itself, a built-in object); \<open>JObj kvs\<close> is a plain object given by its own
  enumerable properties in enumeration order. Numbers are integers here (no NaN).
\<close>

datatype jsval =
    Undefined
  | Null
  | JBool bool
  | JNum int
  | JStr string
  | JFun nat
  | JRef nat
  | JObj "(string \<times> jsval) list"

text \<open>\<^verbatim>\<open>if(v)\<close>: JavaScript's ToBoolean.\<close>

fun truthy :: "jsval \<Rightarrow> bool" where
  "truthy Undefined = False"
| "truthy Null = False"
| "truthy (JBool b) = b"
| "truthy (JNum n) = (n \<noteq> 0)"
| "truthy (JStr s) = (s \<noteq> [])"
| "truthy (JFun f) = True"
| "truthy (JRef r) = True"
| "truthy (JObj kvs) = True"

text \<open>\<^verbatim>\<open>v instanceof Function\<close>.\<close>

fun instanceof_Function :: "jsval \<Rightarrow> bool" where
  "instanceof_Function (JFun f) = True"
| "instanceof_Function v = False"

text \<open>Whether a value is an object (functions are objects; \<^verbatim>\<open>null\<close> is not).\<close>

fun is_object :: "jsval \<Rightarrow> bool" where
  "is_object (JFun f) = True"
| "is_object (JRef r) = True"
| "is_object (JObj kvs) = True"
| "is_object v = False"

datatype exn =
    SyntaxError string
  | TypeError string
  | UnhandledError jsval

text \<open>
  \<^verbatim>\<open>result.value\<close>: reading a property of \<^verbatim>\<open>undefined\<close> or \<^verbatim>\<open>null\<close> throws a
  TypeError; a property that is not there reads as \<^verbatim>\<open>undefined\<close>.
\<close>

fun get_value :: "jsval \<Rightarrow> exn + jsval" where
  "get_value Undefined = Inl (TypeError ''Cannot read property value of undefined'')"
| "get_value Null = Inl (TypeError ''Cannot read property value of null'')"
| "get_value (JObj kvs) = Inr (case map_of kvs ''value'' of None \<Rightarrow> Undefined | Some v \<Rightarrow> v)"
| "get_value v = Inr Undefined"

section \<open>The platform\<close>

text \<open>
  What looking a property name up through an object (its own properties, then its
  prototype chain) finds: nothing, a data property with its value and whether it is
  writable, or the accessor \<^verbatim>\<open>__proto__\<close> of \<^verbatim>\<open>Object.prototype\<close>. (Other accessors
  are not modelled.)
\<close>

datatype slot = Absent | Data jsval bool | ProtoAccessor

text \<open>
  The file runs on a platform it does not define. Of the platform the model takes as
  given: the own fields that \<^verbatim>\<open>EventEmitter.call(this)\<close> assigns to the new object, with
  their values (\<^verbatim>\<open>_events\<close>, \<^verbatim>\<open>_maxListeners\<close> and, depending on the version of
  Node.js, \<^verbatim>\<open>domain\<close> or \<^verbatim>\<open>_eventsCount\<close>); the object \<^verbatim>\<open>Object.prototype\<close>; and, for
  every object, what a property name looked up through it finds.
\<close>

record platform =
  own_fields :: "(string \<times> jsval) list"
  object_prototype :: jsval
  members :: "jsval \<Rightarrow> string \<Rightarrow> slot"

section \<open>The proxy's state\<close>

text \<open>
  The functions of the program that can be registered as listeners or handed to the RPC
  gateway as completion callbacks. The two handlers are the closures of lines 48 and 70,
  the callbacks the closures of lines 61, 84, 146 and 189 (the captured \<^verbatim>\<open>event\<close>,
  respectively the captured \<^verbatim>\<open>callback\<close>, is the argument). \<open>User n\<close> is a listener of
  application code or of the transport layer.
\<close>

datatype listener = RemoveListenerHandler | NewListenerHandler | User nat

datatype callback =
    UnsubscribeCb string
  | SubscribeCb string
  | ReleaseCb
  | InvokeCb jsval

datatype arg = V jsval | C callback | L listener

text \<open>
  What an operation does to the outside, in order: a call of \<^verbatim>\<open>this.emit(type, ...)\<close>,
  a listener being run by such a call, a call of a function of the caller, a line written
  by \<^verbatim>\<open>console.error\<close>, and \<^verbatim>\<open>parent.emit(type, ...)\<close>.
\<close>

datatype effect =
    Emit string "arg list"
  | Called listener string "arg list"
  | CallFn jsval "jsval list"
  | ConsoleError jsval
  | ParentEmit jsval string "jsval list"

text \<open>A property descriptor of \<^verbatim>\<open>Object.defineProperty\<close> (data properties only).\<close>

record descriptor =
  dvalue :: jsval
  writable :: bool
  enumerable :: bool
  configurable :: bool

text \<open>
  \<open>events\<close> is the emitter's listener table (\<^verbatim>\<open>_events\<close>: event-type to listeners, keys
  in insertion order, a key deleted with its last listener). As in current Node.js the
  table has no prototype, so that every event-type is an ordinary key of it.

  The closure variable \<^verbatim>\<open>tokens\<close> of line 46 is a plain object \<^verbatim>\<open>{}\<close>: \<open>tokens\<close> holds
  its own properties and \<open>tokens_proto\<close> its prototype, which starts as
  \<^verbatim>\<open>Object.prototype\<close>; \<open>heap\<close> is the platform's \<open>members\<close>, through which the
  prototype is read.

  \<open>props\<close> are the own properties of the proxy with their attributes; the values of the
  emitter's own fields are the emitter's to change and are not followed after
  \<^verbatim>\<open>EventEmitter.call\<close>. \<open>trace\<close> logs the effects so far; \<open>pending\<close> holds the
  completion callbacks that were passed out in an \<^verbatim>\<open>_rpc\<close> emission and have not been
  called back yet.
\<close>

record mediaobject =
  events :: "(string \<times> listener list) list"
  tokens :: "string \<rightharpoonup> jsval"
  tokens_proto :: jsval
  heap :: "jsval \<Rightarrow> string \<Rightarrow> slot"
  props :: "(string \<times> descriptor) list"
  trace :: "effect list"
  pending :: "callback list"

definition log :: "effect list \<Rightarrow> mediaobject \<Rightarrow> mediaobject" where
  "log es s = s\<lparr>trace := trace s @ es\<rparr>"

section \<open>The ledger as a plain object\<close>

text \<open>What the name is found as when the ledger has no own property of that name.\<close>

definition inherited_slot :: "mediaobject \<Rightarrow> string \<Rightarrow> slot" where
  "inherited_slot s name = (if tokens_proto s = Null then Absent else heap s (tokens_proto s) name)"

text \<open>
  \<^verbatim>\<open>tokens[event]\<close> read: the own property, else what the prototype chain gives; the
  accessor \<^verbatim>\<open>__proto__\<close> gives the prototype itself.
\<close>

definition tokens_get :: "mediaobject \<Rightarrow> string \<Rightarrow> jsval" where
  "tokens_get s event =
     (case tokens s event of
        Some t \<Rightarrow> t
      | None \<Rightarrow>
          (case inherited_slot s event of
             Absent \<Rightarrow> Undefined
           | Data v w \<Rightarrow> v
           | ProtoAccessor \<Rightarrow> tokens_proto s))"

text \<open>
  \<^verbatim>\<open>tokens[event] = token\<close>: an own property is overwritten; without one, the assignment
  creates it unless the name is inherited as a data property that is not writable (the
  assignment is then ignored, the file not being in strict mode) or as the accessor
  \<^verbatim>\<open>__proto__\<close>, whose setter makes an object or \<^verbatim>\<open>null\<close> the new prototype and
  ignores any other value.
\<close>

definition tokens_set :: "string \<Rightarrow> jsval \<Rightarrow> mediaobject \<Rightarrow> mediaobject" where
  "tokens_set event token s =
     (case tokens s event of
        Some t \<Rightarrow> s\<lparr>tokens := (tokens s)(event \<mapsto> token)\<rparr>
      | None \<Rightarrow>
          (case inherited_slot s event of
             Absent \<Rightarrow> s\<lparr>tokens := (tokens s)(event \<mapsto> token)\<rparr>
           | Data v w \<Rightarrow> if w then s\<lparr>tokens := (tokens s)(event \<mapsto> token)\<rparr> else s
           | ProtoAccessor \<Rightarrow>
               if is_object token \<or> token = Null then s\<lparr>tokens_proto := token\<rparr> else s))"

text \<open>\<^verbatim>\<open>delete tokens[event]\<close> removes an own property and nothing else.\<close>

definition tokens_delete :: "string \<Rightarrow> mediaobject \<Rightarrow> mediaobject" where
  "tokens_delete event s = s\<lparr>tokens := (tokens s)(event := None)\<rparr>"

section \<open>The event emitter\<close>

text \<open>
  \<^verbatim>\<open>require('events').EventEmitter\<close> is the platform's, not this repository's; the model
  follows what Node.js does, from 0.10 (the first line with
  \<^verbatim>\<open>EventEmitter.listenerCount\<close>) to the current one:
  \<^item> \<^verbatim>\<open>addListener\<close> emits \<^verbatim>\<open>newListener\<close> (when it has listeners) before it appends the
    listener;
  \<^item> \<^verbatim>\<open>removeListener\<close> removes the last occurrence of the listener and then emits
    \<^verbatim>\<open>removeListener\<close> (when it still has listeners); it does nothing when the listener
    is not registered;
  \<^item> \<^verbatim>\<open>removeAllListeners()\<close> empties the table at once when \<^verbatim>\<open>removeListener\<close> has no
    listeners, and otherwise removes the listeners of every key one by one, last first,
    the key \<^verbatim>\<open>removeListener\<close> last;
  \<^item> \<^verbatim>\<open>emit('error', e)\<close> throws when \<^verbatim>\<open>error\<close> has no listener.
  Listeners of application code are opaque: running one is logged and changes nothing
  of the proxy.
\<close>

definition listeners :: "mediaobject \<Rightarrow> string \<Rightarrow> listener list" where
  "listeners s type = (case map_of (events s) type of None \<Rightarrow> [] | Some ls \<Rightarrow> ls)"

definition listenerCount :: "mediaobject \<Rightarrow> string \<Rightarrow> nat" where
  "listenerCount s type = length (listeners s type)"

definition set_listeners :: "string \<Rightarrow> listener list \<Rightarrow> mediaobject \<Rightarrow> mediaobject" where
  "set_listeners type ls s =
     s\<lparr>events := (if ls = [] then AList.delete type (events s)
                  else AList.update type ls (events s))\<rparr>"

text \<open>
  \<^verbatim>\<open>this.emit('_rpc', kind, params, callback)\<close>: the listeners of \<^verbatim>\<open>_rpc\<close> belong to
  the transport layer and are run as opaque functions. A callback passed out is pending
  from then on.
\<close>

definition emit_rpc :: "string \<Rightarrow> jsval \<Rightarrow> callback option \<Rightarrow> mediaobject \<Rightarrow> mediaobject" where
  "emit_rpc kind params cb s =
     (let args = [V (JStr kind), V params, (case cb of None \<Rightarrow> V Undefined | Some c \<Rightarrow> C c)];
          s1 = log (Emit ''_rpc'' args # map (\<lambda>l. Called l ''_rpc'' args) (listeners s ''_rpc'')) s
      in s1\<lparr>pending := pending s1 @ (case cb of None \<Rightarrow> [] | Some c \<Rightarrow> [c])\<rparr>)"

text \<open>
  \<^verbatim>\<open>this.emit(type, args...)\<close> for the events the completion callbacks emit
  (\<^verbatim>\<open>error\<close>, \<^verbatim>\<open>release\<close>); their listeners are run as opaque functions. (The
  constructor registers its two handlers under \<^verbatim>\<open>removeListener\<close> and \<^verbatim>\<open>newListener\<close>,
  and the runs below add listeners of application code only.)
\<close>

definition emit :: "string \<Rightarrow> jsval list \<Rightarrow> mediaobject \<Rightarrow> exn option \<times> mediaobject" where
  "emit type args s =
     (let s1 = log [Emit type (map V args)] s in
      if type = ''error'' \<and> listeners s ''error'' = []
      then (Some (UnhandledError (case args of [] \<Rightarrow> Undefined | e # _ \<Rightarrow> e)), s1)
      else (None, log (map (\<lambda>l. Called l type (map V args)) (listeners s type)) s1))"

section \<open>The subscription handlers (lines 46 to 91)\<close>

text \<open>The listener of \<^verbatim>\<open>removeListener\<close>, lines 48 to 68.\<close>

definition removeListener_handler :: "string \<Rightarrow> mediaobject \<Rightarrow> mediaobject" where
  "removeListener_handler event s =
     (let count = listenerCount s event in
      if count = 0
      then (let token = tokens_get s event; params = JObj [(''subscription'', token)]
            in emit_rpc ''unsubscribe'' params (Some (UnsubscribeCb event)) s)
      else s)"

text \<open>The listener of \<^verbatim>\<open>newListener\<close>, lines 70 to 91.\<close>

definition newListener_handler :: "string \<Rightarrow> mediaobject \<Rightarrow> mediaobject" where
  "newListener_handler event s =
     (if event = ''release'' then s
      else if event = ''_rpc'' then s
      else (let count = listenerCount s event in
            if count = 0
            then (let params = JObj [(''type'', JStr event)]
                  in emit_rpc ''subscribe'' params (Some (SubscribeCb event)) s)
            else s))"

text \<open>
  \<^verbatim>\<open>this.emit(name, type, listener)\<close> as the emitter itself calls it for
  \<open>name\<close> \<^verbatim>\<open>newListener\<close> or \<^verbatim>\<open>removeListener\<close>: each listener registered under \<open>name\<close>
  at that moment is run with \<open>(type, listener)\<close>.
\<close>

fun run_listener :: "string \<Rightarrow> string \<Rightarrow> listener \<Rightarrow> listener \<Rightarrow> mediaobject \<Rightarrow> mediaobject" where
  "run_listener name type l RemoveListenerHandler s = removeListener_handler type s"
| "run_listener name type l NewListenerHandler s = newListener_handler type s"
| "run_listener name type l (User n) s = log [Called (User n) name [V (JStr type), L l]] s"

definition emit_lifecycle :: "string \<Rightarrow> string \<Rightarrow> listener \<Rightarrow> mediaobject \<Rightarrow> mediaobject" where
  "emit_lifecycle name type l s = fold (run_listener name type l) (listeners s name) s"

definition on :: "string \<Rightarrow> listener \<Rightarrow> mediaobject \<Rightarrow> mediaobject" where
  "on type l s =
     (let s1 = (if listeners s ''newListener'' \<noteq> [] then emit_lifecycle ''newListener'' type l s
                else s)
      in set_listeners type (listeners s1 type @ [l]) s1)"

definition remove_last :: "'a \<Rightarrow> 'a list \<Rightarrow> 'a list" where
  "remove_last x xs = rev (remove1 x (rev xs))"

definition removeListener :: "string \<Rightarrow> listener \<Rightarrow> mediaobject \<Rightarrow> mediaobject" where
  "removeListener type l s =
     (if l \<notin> set (listeners s type) then s
      else (let s1 = set_listeners type (remove_last l (listeners s type)) s
            in if listeners s1 ''removeListener'' \<noteq> []
               then emit_lifecycle ''removeListener'' type l s1
               else s1))"

text \<open>
  \<^verbatim>\<open>removeAllListeners(type)\<close>: the loop removes \<^verbatim>\<open>listeners[listeners.length - 1]\<close>
  until the array is empty, that is, the listeners registered at entry, last first.
\<close>

definition removeAllListeners_of :: "string \<Rightarrow> mediaobject \<Rightarrow> mediaobject" where
  "removeAllListeners_of type s =
     (if listeners s ''removeListener'' = [] then set_listeners type [] s
      else set_listeners type [] (fold (removeListener type) (rev (listeners s type)) s))"

definition removeAllListeners :: "mediaobject \<Rightarrow> mediaobject" where
  "removeAllListeners s =
     (if listeners s ''removeListener'' = [] then s\<lparr>events := []\<rparr>
      else (let keys = filter (\<lambda>k. k \<noteq> ''removeListener'') (map fst (events s));
                s1 = fold removeAllListeners_of keys s;
                s2 = removeAllListeners_of ''removeListener'' s1
            in s2\<lparr>events := []\<rparr>))"

section \<open>Completion callbacks, release and invoke\<close>

text \<open>
  Calling a value of the caller as a function: a function of the caller is opaque (the
  call is logged), anything else is not callable.
\<close>

fun call_fn :: "jsval \<Rightarrow> jsval list \<Rightarrow> mediaobject \<Rightarrow> exn option \<times> mediaobject" where
  "call_fn (JFun f) args s = (None, log [CallFn (JFun f) args] s)"
| "call_fn v args s = (Some (TypeError ''callback is not a function''), s)"

text \<open>
  The bodies of the four completion callbacks, run with the gateway's \<open>(error, result)\<close>:
  lines 61 to 66, 84 to 89, 146 to 154 and 189 to 194.
\<close>

fun run_callback :: "callback \<Rightarrow> jsval \<Rightarrow> jsval \<Rightarrow> mediaobject \<Rightarrow> exn option \<times> mediaobject" where
  "run_callback (UnsubscribeCb event) error result s =
     (if truthy error then emit ''error'' [error] s
      else (None, tokens_delete event s))"
| "run_callback (SubscribeCb event) error token s =
     (if truthy error then emit ''error'' [error] s
      else (None, tokens_set event token s))"
| "run_callback ReleaseCb error result s =
     (if truthy error then (None, log [ConsoleError error] s)
      else (case emit ''release'' [] s of
              (Some e, s1) \<Rightarrow> (Some e, s1)
            | (None, s1) \<Rightarrow> (None, removeAllListeners s1)))"
| "run_callback (InvokeCb callback) error result s =
     (if truthy error then call_fn callback [error] s
      else (case get_value result of
              Inl e \<Rightarrow> (Some e, s)
            | Inr v \<Rightarrow> call_fn callback [Null, v] s))"

text \<open>\<^verbatim>\<open>MediaObject.prototype.release\<close>, lines 142 to 155.\<close>

definition release :: "mediaobject \<Rightarrow> mediaobject" where
  "release s = emit_rpc ''release'' (JObj []) (Some ReleaseCb) s"

text \<open>\<^verbatim>\<open>MediaObject.prototype.invoke\<close>, lines 166 to 198.\<close>

definition invoke :: "jsval \<Rightarrow> jsval \<Rightarrow> jsval \<Rightarrow> mediaobject \<Rightarrow> exn option \<times> mediaobject" where
  "invoke method params callback s =
     (if instanceof_Function params \<and> truthy callback
      then (Some (SyntaxError ''Nothing can be defined after the callback''), s)
      else (let callback1 = (if instanceof_Function params then params else callback);
                params1 = (if instanceof_Function params then Null else params);
                params2 = JObj ((''operation'', method) #
                                (if truthy params1 then [(''operationParams'', params1)] else []));
                callback2 = (if truthy callback1 then Some (InvokeCb callback1) else None)
            in (None, emit_rpc ''invoke'' params2 callback2 s)))"

section \<open>The constructor (lines 31 to 130)\<close>

text \<open>
  \<^verbatim>\<open>Object.defineProperty(this, key, {value: v})\<close>. A new property gets the defaults of
  an absent attribute: not writable, not enumerable, not configurable. On an existing
  property only the value is redefined, which is refused with a TypeError when the
  property is neither configurable nor writable and the value differs. (Values are
  compared by structure here; JavaScript compares objects by identity.)
\<close>

definition defineProperty :: "string \<Rightarrow> jsval \<Rightarrow> mediaobject \<Rightarrow> exn + mediaobject" where
  "defineProperty key v s =
     (case map_of (props s) key of
        None \<Rightarrow> Inr (s\<lparr>props := props s @
                 [(key, \<lparr>dvalue = v, writable = False, enumerable = False, configurable = False\<rparr>)]\<rparr>)
      | Some d \<Rightarrow>
          if \<not> configurable d \<and> \<not> writable d \<and> dvalue d \<noteq> v
          then Inl (TypeError ''Cannot redefine property'')
          else Inr (s\<lparr>props := AList.update key (d\<lparr>dvalue := v\<rparr>) (props s)\<rparr>))"

text \<open>The loop of lines 37 and 38 over the enumerable properties of \<^verbatim>\<open>params\<close>.\<close>

fun defineProperties :: "(string \<times> jsval) list \<Rightarrow> mediaobject \<Rightarrow> exn + mediaobject" where
  "defineProperties [] s = Inr s"
| "defineProperties ((key, v) # kvs) s =
     (case defineProperty key v s of
        Inl e \<Rightarrow> Inl e
      | Inr s1 \<Rightarrow> defineProperties kvs s1)"

text \<open>
  \<^verbatim>\<open>EventEmitter.call(this)\<close> on the fresh object: the emitter assigns its own fields,
  which makes them ordinary (writable, enumerable, configurable) properties. The record
  already holds the ledger that line 46 creates: empty, with \<^verbatim>\<open>Object.prototype\<close> as
  its prototype.
\<close>

definition assigned :: "jsval \<Rightarrow> descriptor" where
  "assigned v = \<lparr>dvalue = v, writable = True, enumerable = True, configurable = True\<rparr>"

definition field_names :: "platform \<Rightarrow> string list" where
  "field_names pf = map fst (own_fields pf)"

definition EventEmitter_call :: "platform \<Rightarrow> mediaobject" where
  "EventEmitter_call pf =
     \<lparr>events = [], tokens = Map.empty, tokens_proto = object_prototype pf, heap = members pf,
      props = map (\<lambda>(k, v). (k, assigned v)) (own_fields pf),
      trace = [], pending = []\<rparr>"

text \<open>
  \<open>self\<close> is the reference to the object under construction (\<^verbatim>\<open>this\<close>); \<open>params\<close>
  is given by its enumerable properties (none when \<^verbatim>\<open>params\<close> is omitted).
  \<^verbatim>\<open>parent.emit\<close> needs \<open>parent\<close> to be an object; an object reference is taken to
  be an emitter.
\<close>

definition MediaObject ::
  "platform \<Rightarrow> jsval \<Rightarrow> jsval \<Rightarrow> jsval \<Rightarrow> jsval \<Rightarrow> (string \<times> jsval) list \<Rightarrow>
   exn + mediaobject" where
  "MediaObject pf self oid parent pipeline params =
     (case defineProperties params (EventEmitter_call pf) of
        Inl e \<Rightarrow> Inl e
      | Inr s1 \<Rightarrow>
     (let s2 = on ''removeListener'' RemoveListenerHandler s1;
          s3 = on ''newListener'' NewListenerHandler s2
      in case defineProperty ''id'' oid s3 of
        Inl e \<Rightarrow> Inl e
      | Inr s4 \<Rightarrow>
     (case defineProperty ''parent'' parent s4 of
        Inl e \<Rightarrow> Inl e
      | Inr s5 \<Rightarrow>
     (case defineProperty ''pipeline'' (if truthy pipeline then pipeline else self) s5 of
        Inl e \<Rightarrow> Inl e
      | Inr s6 \<Rightarrow>
     (case parent of
        JRef p \<Rightarrow> Inr (log [ParentEmit parent ''mediaObject'' [self]] s6)
      | _ \<Rightarrow> Inl (TypeError ''parent.emit is not a function''))))))"

section \<open>Runs of a proxy\<close>

text \<open>
  The gateway calls a pending completion callback back, once.
\<close>

definition complete :: "callback \<Rightarrow> jsval \<Rightarrow> jsval \<Rightarrow> mediaobject \<Rightarrow> exn option \<times> mediaobject" where
  "complete cb error result s = run_callback cb error result (s\<lparr>pending := remove1 cb (pending s)\<rparr>)"


text \<open>
  A proxy is live while the two handlers the constructor registered are in place (and
  no copy of them anywhere else under the two event-types): from construction until a
  release succeeds.
\<close>

fun is_user :: "listener \<Rightarrow> bool" where
  "is_user (User n) = True"
| "is_user l = False"

definition live :: "mediaobject \<Rightarrow> bool" where
  "live s \<longleftrightarrow>
     filter (\<lambda>l. \<not> is_user l) (listeners s ''removeListener'') = [RemoveListenerHandler] \<and>
     filter (\<lambda>l. \<not> is_user l) (listeners s ''newListener'') = [NewListenerHandler]"

text \<open>The \<^verbatim>\<open>_rpc\<close> emissions among the effects so far.\<close>

fun is_rpc :: "effect \<Rightarrow> bool" where
  "is_rpc (Emit type args) = (type = ''_rpc'')"
| "is_rpc e = False"

definition rpc_emissions :: "mediaobject \<Rightarrow> effect list" where
  "rpc_emissions s = filter is_rpc (trace s)"

text \<open>
  \<open>stores s event\<close>: the ledger of \<open>s\<close> takes an own entry under this name when one is
  assigned, whether or not it has one already: the name is not inherited as the accessor
  \<^verbatim>\<open>__proto__\<close> or as a data property that is not writable.
\<close>

definition stores :: "mediaobject \<Rightarrow> string \<Rightarrow> bool" where
  "stores s event =
     (case inherited_slot s event of Absent \<Rightarrow> True | Data v w \<Rightarrow> w | ProtoAccessor \<Rightarrow> False)"





section \<open>An example platform and example runs\<close>

text \<open>
  Current Node.js: the emitter assigns \<^verbatim>\<open>_events\<close>, \<^verbatim>\<open>_eventsCount\<close> and
  \<^verbatim>\<open>_maxListeners\<close>; \<^verbatim>\<open>Object.prototype\<close> (here \<open>JRef 2\<close>) has the members that
  ECMAScript gives it, built-in functions (here \<open>JFun 1000\<close> and up) and the accessor
  \<^verbatim>\<open>__proto__\<close>; a plain object has its own properties and then those; any other
  object is taken to have no members of its own.
\<close>

definition builtins :: "(string \<times> jsval) list" where
  "builtins =
     [(''constructor'', JFun 1000), (''hasOwnProperty'', JFun 1001),
      (''isPrototypeOf'', JFun 1002), (''propertyIsEnumerable'', JFun 1003),
      (''toLocaleString'', JFun 1004), (''toString'', JFun 1005), (''valueOf'', JFun 1006),
      (''__defineGetter__'', JFun 1007), (''__defineSetter__'', JFun 1008),
      (''__lookupGetter__'', JFun 1009), (''__lookupSetter__'', JFun 1010)]"

definition Object_prototype_members :: "string \<Rightarrow> slot" where
  "Object_prototype_members name =
     (if name = ''__proto__'' then ProtoAccessor
      else (case map_of builtins name of Some f \<Rightarrow> Data f True | None \<Rightarrow> Absent))"

fun node_members :: "jsval \<Rightarrow> string \<Rightarrow> slot" where
  "node_members (JObj kvs) name =
     (case map_of kvs name of Some v \<Rightarrow> Data v True | None \<Rightarrow> Object_prototype_members name)"
| "node_members p name = Object_prototype_members name"

definition node :: platform where
  "node = \<lparr>own_fields = [(''_events'', JObj []), (''_eventsCount'', JNum 0),
                          (''_maxListeners'', Undefined)],
           object_prototype = JRef 2, members = node_members\<rparr>"

text \<open>
  A proxy for the examples: object \<^verbatim>\<open>obj-1\<close> created by parent \<open>JRef 0\<close>, itself
  \<open>JRef 1\<close>, no pipeline argument, no params.
\<close>

definition example_construction :: "exn + mediaobject" where
  "example_construction = MediaObject node (JRef 1) (JStr ''obj-1'') (JRef 0) Undefined []"

definition obj1 :: mediaobject where
  "obj1 = (case example_construction of Inr s \<Rightarrow> s | Inl e \<Rightarrow> EventEmitter_call node)"



text \<open>
  The listener is removed and added again before the unsubscribe has completed; the
  second subscribe returns \<^verbatim>\<open>tok-2\<close>, and then the unsubscribe completes.
\<close>

definition overlapping_run :: mediaobject where
  "overlapping_run =
     (let s1 = on ''Error'' (User 0) obj1;
          s2 = snd (complete (SubscribeCb ''Error'') Null (JStr ''tok-1'') s1);
          s3 = removeListener ''Error'' (User 0) s2;
          s4 = on ''Error'' (User 0) s3;
          s5 = snd (complete (SubscribeCb ''Error'') Null (JStr ''tok-2'') s4)
      in snd (complete (UnsubscribeCb ''Error'') Null Undefined s5))"

text \<open>
  A release that succeeds, after which the two unsubscribe requests that the removal of
  all listeners issued complete as well.
\<close>

definition released_run :: mediaobject where
  "released_run =
     (let s1 = on ''Error'' (User 0) obj1;
          s2 = snd (complete (SubscribeCb ''Error'') Null (JStr ''tok-1'') s1);
          s3 = release s2;
          s4 = snd (complete ReleaseCb Null Undefined s3);
          s5 = snd (complete (UnsubscribeCb ''newListener'') Null Undefined s4)
      in snd (complete (UnsubscribeCb ''Error'') Null Undefined s5))"

text \<open>A listener of the event-type \<^verbatim>\<open>__proto__\<close>, whose subscribe returns \<^verbatim>\<open>tok-9\<close>.\<close>

definition proto_listener_run :: mediaobject where
  "proto_listener_run =
     (let s1 = on ''__proto__'' (User 5) obj1
      in snd (complete (SubscribeCb ''__proto__'') Null (JStr ''tok-9'') s1))"




section \<open>Predicates of the proofs\<close>

text \<open>
  The descriptor of a property that \<^verbatim>\<open>Object.defineProperty\<close> created from
  \<^verbatim>\<open>{value: v}\<close>, and the state of the property table in which every property but those
  of the given names has such attributes.
\<close>

definition frozen :: "jsval \<Rightarrow> descriptor" where
  "frozen v = \<lparr>dvalue = v, writable = False, enumerable = False, configurable = False\<rparr>"

definition defined_frozen :: "string list \<Rightarrow> mediaobject \<Rightarrow> bool" where
  "defined_frozen names s \<longleftrightarrow>
     (\<forall>k d. map_of (props s) k = Some d \<longrightarrow> k \<notin> set names \<longrightarrow>
        \<not> writable d \<and> \<not> enumerable d \<and> \<not> configurable d)"





text \<open>
  The request, if any, that a listener of \<^verbatim>\<open>newListener\<close> or \<^verbatim>\<open>removeListener\<close>
  issues when it is run for event-type \<open>type\<close> in state \<open>s\<close>; \<open>run_listener_request\<close>
  below shows that this is what the handlers do.
\<close>

definition handler_request ::
  "listener \<Rightarrow> string \<Rightarrow> mediaobject \<Rightarrow> (string \<times> jsval \<times> callback) option" where
  "handler_request h type s =
     (case h of
        RemoveListenerHandler \<Rightarrow>
          if listenerCount s type = 0
          then Some (''unsubscribe'', JObj [(''subscription'', tokens_get s type)],
                     UnsubscribeCb type)
          else None
      | NewListenerHandler \<Rightarrow>
          if type = ''release'' \<or> type = ''_rpc'' \<or> listenerCount s type \<noteq> 0 then None
          else Some (''subscribe'', JObj [(''type'', JStr type)], SubscribeCb type)
      | User n \<Rightarrow> None)"

fun request_emission :: "(string \<times> jsval \<times> callback) option \<Rightarrow> effect list" where
  "request_emission None = []"
| "request_emission (Some (kind, params, cb)) = [Emit ''_rpc'' [V (JStr kind), V params, C cb]]"

fun request_callback :: "(string \<times> jsval \<times> callback) option \<Rightarrow> callback list" where
  "request_callback None = []"
| "request_callback (Some (kind, params, cb)) = [cb]"

text \<open>
  No subscription for the two internal event-types: none stored, none under way.
\<close>

fun internal_subscribe :: "callback \<Rightarrow> bool" where
  "internal_subscribe (SubscribeCb event) = (event = ''release'' \<or> event = ''_rpc'')"
| "internal_subscribe cb = False"


text \<open>
  \<open>grows s s'\<close>: from \<open>s\<close> to \<open>s'\<close> the ledger and the properties stay, the trace is
  extended, and the callbacks that became pending subscribe for no internal event-type.
\<close>

definition grows :: "mediaobject \<Rightarrow> mediaobject \<Rightarrow> bool" where
  "grows s s' \<longleftrightarrow>
     tokens s' = tokens s \<and> tokens_proto s' = tokens_proto s \<and> heap s' = heap s \<and>
     props s' = props s \<and>
     (\<exists>es. trace s' = trace s @ es) \<and>
     (\<exists>cs. pending s' = pending s @ cs \<and> list_all (\<lambda>cb. \<not> internal_subscribe cb) cs)"

section \<open>The emitter and the handlers, field by field\<close>

lemma listeners_cong: "events s' = events s \<Longrightarrow> listeners s' type = listeners s type"
  by (simp add: listeners_def)

lemma emit_rpc_fields:
  "events (emit_rpc kind params cb s) = events s"
  "tokens (emit_rpc kind params cb s) = tokens s"
  "tokens_proto (emit_rpc kind params cb s) = tokens_proto s"
  "heap (emit_rpc kind params cb s) = heap s"
  "props (emit_rpc kind params cb s) = props s"
  "pending (emit_rpc kind params cb s) = pending s @ (case cb of None \<Rightarrow> [] | Some c \<Rightarrow> [c])"
  "trace (emit_rpc kind params cb s) =
     trace s @ Emit ''_rpc'' [V (JStr kind), V params, (case cb of None \<Rightarrow> V Undefined | Some c \<Rightarrow> C c)] #
       map (\<lambda>l. Called l ''_rpc'' [V (JStr kind), V params, (case cb of None \<Rightarrow> V Undefined | Some c \<Rightarrow> C c)])
         (listeners s ''_rpc'')"
  by (simp_all add: emit_rpc_def log_def Let_def)

lemma filter_is_rpc_Called: "filter is_rpc (map (\<lambda>l. Called l type args) ls) = []"
  by (induction ls) simp_all

lemma rpc_emissions_emit_rpc:
  "rpc_emissions (emit_rpc kind params (Some cb) s) =
     rpc_emissions s @ [Emit ''_rpc'' [V (JStr kind), V params, C cb]]"
  by (simp add: rpc_emissions_def emit_rpc_fields filter_is_rpc_Called)

lemma set_listeners_fields:
  "tokens (set_listeners type ls s) = tokens s"
  "tokens_proto (set_listeners type ls s) = tokens_proto s"
  "heap (set_listeners type ls s) = heap s"
  "props (set_listeners type ls s) = props s"
  "trace (set_listeners type ls s) = trace s"
  "pending (set_listeners type ls s) = pending s"
  by (simp_all add: set_listeners_def)

lemma listeners_set_listeners:
  "listeners (set_listeners type ls s) t = (if t = type then ls else listeners s t)"
  by (simp add: listeners_def set_listeners_def update_conv' delete_conv')

lemma run_listener_tables:
  "events (run_listener name type l x s) = events s"
  "tokens (run_listener name type l x s) = tokens s"
  "tokens_proto (run_listener name type l x s) = tokens_proto s"
  "heap (run_listener name type l x s) = heap s"
  "props (run_listener name type l x s) = props s"
  by (cases x; simp add: removeListener_handler_def newListener_handler_def Let_def
        emit_rpc_fields log_def)+

lemma ledger_cong:
  assumes "tokens s' = tokens s" and "tokens_proto s' = tokens_proto s" and "heap s' = heap s"
  shows "inherited_slot s' event = inherited_slot s event"
    and "tokens_get s' event = tokens_get s event"
    and "stores s' event = stores s event"
proof -
  show i: "inherited_slot s' event = inherited_slot s event"
    using assms by (simp add: inherited_slot_def)
  show "tokens_get s' event = tokens_get s event"
    unfolding tokens_get_def i assms(1,2) ..
  show "stores s' event = stores s event"
    unfolding stores_def i ..
qed

lemma handler_request_cong:
  assumes "events s' = events s" and "tokens s' = tokens s"
    and "tokens_proto s' = tokens_proto s" and "heap s' = heap s"
  shows "handler_request h type s' = handler_request h type s"
proof -
  have c: "listenerCount s' type = listenerCount s type"
    using assms(1) by (simp add: listenerCount_def listeners_def)
  have g: "tokens_get s' type = tokens_get s type"
    using assms(2-4) by (rule ledger_cong)
  show ?thesis
    unfolding handler_request_def c g ..
qed

lemma run_listener_request:
  "rpc_emissions (run_listener name type l x s) =
     rpc_emissions s @ request_emission (handler_request x type s)"
  "pending (run_listener name type l x s) =
     pending s @ request_callback (handler_request x type s)"
  by (cases x; simp add: removeListener_handler_def newListener_handler_def Let_def
        handler_request_def rpc_emissions_emit_rpc emit_rpc_fields log_def rpc_emissions_def)+

lemma fold_run_listener:
  "events (fold (run_listener name type l) xs s) = events s \<and>
   tokens (fold (run_listener name type l) xs s) = tokens s \<and>
   tokens_proto (fold (run_listener name type l) xs s) = tokens_proto s \<and>
   heap (fold (run_listener name type l) xs s) = heap s \<and>
   props (fold (run_listener name type l) xs s) = props s \<and>
   rpc_emissions (fold (run_listener name type l) xs s) =
     rpc_emissions s @ concat (map (\<lambda>x. request_emission (handler_request x type s)) xs) \<and>
   pending (fold (run_listener name type l) xs s) =
     pending s @ concat (map (\<lambda>x. request_callback (handler_request x type s)) xs)"
proof (induction xs arbitrary: s)
  case Nil
  show ?case by simp
next
  case (Cons x xs)
  have same: "\<And>h. handler_request h type (run_listener name type l x s) = handler_request h type s"
    by (rule handler_request_cong) (simp_all add: run_listener_tables)
  show ?case
    using Cons.IH [of "run_listener name type l x s"]
    by (simp add: run_listener_tables run_listener_request same)
qed

lemma emit_lifecycle_tables:
  "events (emit_lifecycle name type l s) = events s"
  "tokens (emit_lifecycle name type l s) = tokens s"
  "tokens_proto (emit_lifecycle name type l s) = tokens_proto s"
  "heap (emit_lifecycle name type l s) = heap s"
  "props (emit_lifecycle name type l s) = props s"
  by (simp_all add: emit_lifecycle_def fold_run_listener)

lemma single_handler:
  assumes "filter (\<lambda>l. \<not> is_user l) xs = [h]" and "F None = []"
  shows "concat (map (\<lambda>x. F (handler_request x type s)) xs) = F (handler_request h type s)"
  using assms(1)
proof (induction xs)
  case Nil
  then show ?case by simp
next
  case (Cons x xs)
  show ?case
  proof (cases "is_user x")
    case True
    then have "handler_request x type s = None"
      by (cases x) (simp_all add: handler_request_def)
    with Cons True assms(2) show ?thesis by simp
  next
    case False
    with Cons.prems have x: "x = h" and rest: "filter (\<lambda>l. \<not> is_user l) xs = []" by simp_all
    from rest have "\<forall>y\<in>set xs. is_user y" by (simp add: filter_empty_conv)
    then have "\<forall>y\<in>set xs. handler_request y type s = None"
      by (auto simp: handler_request_def split: listener.splits)
    then have "concat (map (\<lambda>x. F (handler_request x type s)) xs) = []"
      using assms(2) by simp
    with x show ?thesis by simp
  qed
qed

lemma live_nonempty:
  "live s \<Longrightarrow> listeners s ''newListener'' \<noteq> [] \<and> listeners s ''removeListener'' \<noteq> []"
  by (auto simp: live_def)

lemma on_live:
  assumes "live s"
  shows "rpc_emissions (on type l s) =
           rpc_emissions s @ request_emission (handler_request NewListenerHandler type s)"
    and "pending (on type l s) =
           pending s @ request_callback (handler_request NewListenerHandler type s)"
    and "tokens (on type l s) = tokens s"
    and "props (on type l s) = props s"
    and "listeners (on type l s) t = (if t = type then listeners s type @ [l] else listeners s t)"
    and "tokens_proto (on type l s) = tokens_proto s"
    and "heap (on type l s) = heap s"
proof -
  from assms have h: "filter (\<lambda>l. \<not> is_user l) (listeners s ''newListener'') = [NewListenerHandler]"
    by (simp add: live_def)
  have ne: "listeners s ''newListener'' \<noteq> []" using assms by (simp add: live_nonempty)
  let ?s1 = "emit_lifecycle ''newListener'' type l s"
  have on_eq: "on type l s = set_listeners type (listeners ?s1 type @ [l]) ?s1"
    using ne by (simp add: on_def Let_def)
  have ls: "\<And>t. listeners ?s1 t = listeners s t"
    by (rule listeners_cong) (simp add: emit_lifecycle_tables)
  show "rpc_emissions (on type l s) =
           rpc_emissions s @ request_emission (handler_request NewListenerHandler type s)"
    using single_handler [OF h, of request_emission type s] fold_run_listener [of "''newListener''" type l "listeners s ''newListener''" s]
    by (simp add: on_eq rpc_emissions_def set_listeners_fields emit_lifecycle_def)
  show "pending (on type l s) =
           pending s @ request_callback (handler_request NewListenerHandler type s)"
    using single_handler [OF h, of request_callback type s] fold_run_listener [of "''newListener''" type l "listeners s ''newListener''" s]
    by (simp add: on_eq set_listeners_fields emit_lifecycle_def)
  show "tokens (on type l s) = tokens s"
    by (simp add: on_eq set_listeners_fields emit_lifecycle_tables)
  show "props (on type l s) = props s"
    by (simp add: on_eq set_listeners_fields emit_lifecycle_tables)
  show "listeners (on type l s) t = (if t = type then listeners s type @ [l] else listeners s t)"
    by (simp add: on_eq listeners_set_listeners ls)
  show "tokens_proto (on type l s) = tokens_proto s"
    by (simp add: on_eq set_listeners_fields emit_lifecycle_tables)
  show "heap (on type l s) = heap s"
    by (simp add: on_eq set_listeners_fields emit_lifecycle_tables)
qed

section \<open>The example proxy\<close>

lemma emit_error:
  "emit ''error'' [e] s =
     (if listeners s ''error'' = [] then Some (UnhandledError e) else None,
      s\<lparr>trace := trace s @ Emit ''error'' [V e] #
                   map (\<lambda>l. Called l ''error'' [V e]) (listeners s ''error'')\<rparr>)"
  by (simp add: emit_def log_def Let_def listeners_def)

lemmas construct_defs = MediaObject_def EventEmitter_call_def defineProperty_def on_def
  listeners_def set_listeners_def Let_def log_def assigned_def node_def field_names_def


lemma obj1_events:
  "events obj1 = [(''removeListener'', [RemoveListenerHandler]), (''newListener'', [NewListenerHandler])]"
  by (simp add: obj1_def example_construction_def construct_defs)

lemma obj1_fields:
  "tokens obj1 = Map.empty" "pending obj1 = []"
  "trace obj1 = [ParentEmit (JRef 0) ''mediaObject'' [JRef 1]]"
  "tokens_proto obj1 = JRef 2" "heap obj1 = node_members"
  by (simp_all add: obj1_def example_construction_def construct_defs)

section \<open>Invocation\<close>

text \<open>
  Claim C7. For every method and any two functions \<open>f\<close> and \<open>g\<close>,
  \<^verbatim>\<open>invoke(m, f, g)\<close> throws the SyntaxError of line 172 at once: the state, and with it
  the trace, is the one before the call, so nothing has been emitted.
\<close>
theorem invoke_callback_before_params_throws:
  "invoke method (JFun f) (JFun g) s =
     (Some (SyntaxError ''Nothing can be defined after the callback''), s)"
  by (simp add: invoke_def)

text \<open>
  Claim C10. \<^verbatim>\<open>invoke(m, p)\<close> without a completion handler (and \<open>p\<close> not a function)
  returns normally and only emits the \<^verbatim>\<open>_rpc\<close> request, whose callback argument is
  \<^verbatim>\<open>undefined\<close>: no callback becomes pending, so no outcome of the request can reach
  the proxy, and no \<^verbatim>\<open>error\<close> event and no call of a function of the caller is among
  the effects.
\<close>
theorem invoke_without_callback:
  "\<not> instanceof_Function params \<Longrightarrow>
   invoke method params Undefined s =
     (None,
      s\<lparr>trace := trace s @
           Emit ''_rpc'' [V (JStr ''invoke''),
              V (JObj ((''operation'', method) #
                       (if truthy params then [(''operationParams'', params)] else []))),
              V Undefined] #
           map (\<lambda>l. Called l ''_rpc'' [V (JStr ''invoke''),
              V (JObj ((''operation'', method) #
                       (if truthy params then [(''operationParams'', params)] else []))),
              V Undefined]) (listeners s ''_rpc'')\<rparr>)"
  by (simp add: invoke_def Let_def emit_rpc_def log_def)

theorem invoke_without_callback_witness:
  "invoke (JStr ''foo'') (JObj [(''a'', JNum 1)]) Undefined obj1 =
     (None,
      obj1\<lparr>trace := trace obj1 @
           [Emit ''_rpc'' [V (JStr ''invoke''),
              V (JObj [(''operation'', JStr ''foo''), (''operationParams'', JObj [(''a'', JNum 1)])]),
              V Undefined]]\<rparr>)"
  using invoke_without_callback [of "JObj [(''a'', JNum 1)]" "JStr ''foo''" obj1]
  by (simp add: listeners_def obj1_events)

text \<open>
  Claim C4. \<^verbatim>\<open>invoke(m, p, cb)\<close> with params \<open>p\<close> (truthy and not a function, as
  every object is) and a function \<open>cb\<close> emits the \<^verbatim>\<open>invoke\<close> request with payload
  \<^verbatim>\<open>{operation: m, operationParams: p}\<close>; \<^verbatim>\<open>invoke(m, cb)\<close> emits it with payload
  \<^verbatim>\<open>{operation: m}\<close> alone; the callback handed to the gateway calls \<open>cb(null, v)\<close>
  on a successful result with \<^verbatim>\<open>value\<close> \<open>v\<close> and \<open>cb(error)\<close> on an error; and
  \<^verbatim>\<open>invoke\<close>, whatever its arguments, leaves listeners, ledger and properties as
  they were.
\<close>
theorem invoke_forwards_and_unwraps:
  "(truthy params \<and> \<not> instanceof_Function params \<longrightarrow>
      invoke m params (JFun cb) s =
        (None,
         s\<lparr>trace := trace s @
              Emit ''_rpc'' [V (JStr ''invoke''),
                 V (JObj [(''operation'', m), (''operationParams'', params)]),
                 C (InvokeCb (JFun cb))] #
              map (\<lambda>l. Called l ''_rpc'' [V (JStr ''invoke''),
                 V (JObj [(''operation'', m), (''operationParams'', params)]),
                 C (InvokeCb (JFun cb))]) (listeners s ''_rpc''),
            pending := pending s @ [InvokeCb (JFun cb)]\<rparr>)) \<and>
   invoke m (JFun cb) Undefined s =
     (None,
      s\<lparr>trace := trace s @
           Emit ''_rpc'' [V (JStr ''invoke''), V (JObj [(''operation'', m)]),
              C (InvokeCb (JFun cb))] #
           map (\<lambda>l. Called l ''_rpc'' [V (JStr ''invoke''), V (JObj [(''operation'', m)]),
              C (InvokeCb (JFun cb))]) (listeners s ''_rpc''),
         pending := pending s @ [InvokeCb (JFun cb)]\<rparr>) \<and>
   (\<not> truthy error \<and> map_of result ''value'' = Some v \<longrightarrow>
      run_callback (InvokeCb (JFun cb)) error (JObj result) s =
        (None, s\<lparr>trace := trace s @ [CallFn (JFun cb) [Null, v]]\<rparr>)) \<and>
   (truthy error \<longrightarrow>
      run_callback (InvokeCb (JFun cb)) error raw s =
        (None, s\<lparr>trace := trace s @ [CallFn (JFun cb) [error]]\<rparr>)) \<and>
   events (snd (invoke m a c s)) = events s \<and>
   tokens (snd (invoke m a c s)) = tokens s \<and>
   props (snd (invoke m a c s)) = props s"
  by (simp add: invoke_def Let_def emit_rpc_def log_def)

theorem invoke_forwards_and_unwraps_witness:
  "invoke (JStr ''foo'') (JObj [(''a'', JNum 1)]) (JFun 0) obj1 =
     (None,
      obj1\<lparr>trace := trace obj1 @
           [Emit ''_rpc'' [V (JStr ''invoke''),
              V (JObj [(''operation'', JStr ''foo''), (''operationParams'', JObj [(''a'', JNum 1)])]),
              C (InvokeCb (JFun 0))]],
         pending := [InvokeCb (JFun 0)]\<rparr>) \<and>
   run_callback (InvokeCb (JFun 0)) Null (JObj [(''value'', JNum 42)]) obj1 =
     (None, obj1\<lparr>trace := trace obj1 @ [CallFn (JFun 0) [Null, JNum 42]]\<rparr>) \<and>
   run_callback (InvokeCb (JFun 0)) (JStr ''boom'') Undefined obj1 =
     (None, obj1\<lparr>trace := trace obj1 @ [CallFn (JFun 0) [JStr ''boom'']]\<rparr>)"
  using invoke_forwards_and_unwraps [where m = "JStr ''foo''"
      and params = "JObj [(''a'', JNum 1)]" and cb = 0 and s = obj1 and error = Null
      and result = "[(''value'', JNum 42)]" and v = "JNum 42"]
    invoke_forwards_and_unwraps [where m = "JStr ''foo''"
      and params = "JObj [(''a'', JNum 1)]" and cb = 0 and s = obj1 and error = "JStr ''boom''"
      and raw = Undefined]
  by (simp add: listeners_def obj1_events obj1_fields)

section \<open>Failures\<close>

text \<open>
  Claim C6. When the release request completes with an error, the callback returns
  normally and its only effect is the line written by \<^verbatim>\<open>console.error\<close>: no
  \<^verbatim>\<open>error\<close> and no \<^verbatim>\<open>release\<close> event, listeners and ledger untouched.
\<close>
theorem release_failure_only_logged:
  "truthy error \<Longrightarrow>
   run_callback ReleaseCb error result s = (None, s\<lparr>trace := trace s @ [ConsoleError error]\<rparr>)"
  by (simp add: log_def)

theorem release_failure_only_logged_witness:
  "run_callback ReleaseCb (JStr ''boom'') Undefined obj1 =
     (None, obj1\<lparr>trace := [ParentEmit (JRef 0) ''mediaObject'' [JRef 1], ConsoleError (JStr ''boom'')]\<rparr>)"
  using release_failure_only_logged [of "JStr ''boom''" Undefined obj1]
  by (simp add: obj1_fields)

text \<open>
  Claim C3. When a subscribe or an unsubscribe request completes with an error, the
  callback emits \<^verbatim>\<open>error\<close> with that error (which the emitter throws back when
  \<^verbatim>\<open>error\<close> has no listener) and changes nothing else: the ledger is the one before,
  so a failed subscribe creates no entry and a failed unsubscribe keeps the entry.
\<close>
theorem subscription_failure_keeps_ledger:
  "truthy error \<Longrightarrow>
   run_callback (SubscribeCb event) error token s =
     (if listeners s ''error'' = [] then Some (UnhandledError error) else None,
      s\<lparr>trace := trace s @ Emit ''error'' [V error] #
                   map (\<lambda>l. Called l ''error'' [V error]) (listeners s ''error'')\<rparr>) \<and>
   run_callback (UnsubscribeCb event) error result s =
     (if listeners s ''error'' = [] then Some (UnhandledError error) else None,
      s\<lparr>trace := trace s @ Emit ''error'' [V error] #
                   map (\<lambda>l. Called l ''error'' [V error]) (listeners s ''error'')\<rparr>) \<and>
   tokens (snd (run_callback (SubscribeCb event) error token s)) = tokens s \<and>
   tokens (snd (run_callback (UnsubscribeCb event) error result s)) = tokens s"
  by (simp add: emit_error)

theorem subscription_failure_keeps_ledger_witness:
  "run_callback (SubscribeCb ''Error'') (JStr ''boom'') Undefined obj1 =
     (Some (UnhandledError (JStr ''boom'')),
      obj1\<lparr>trace := [ParentEmit (JRef 0) ''mediaObject'' [JRef 1],
                       Emit ''error'' [V (JStr ''boom'')]]\<rparr>) \<and>
   tokens (snd (run_callback (UnsubscribeCb ''Error'') (JStr ''boom'') Undefined obj1)) = Map.empty"
  using subscription_failure_keeps_ledger [of "JStr ''boom''" "''Error''" Undefined obj1 Undefined]
  by (simp add: listeners_def obj1_events obj1_fields)


section \<open>Steps that leave the ledger alone\<close>

lemma grows_refl: "grows s s"
  by (simp add: grows_def)

lemma grows_trans: "grows a b \<Longrightarrow> grows b c \<Longrightarrow> grows a c"
  unfolding grows_def
  by (elim conjE exE) (simp add: )

lemma grows_fold:
  assumes "\<And>x s. grows s (f x s)"
  shows "grows s (fold f xs s)"
proof (induction xs arbitrary: s)
  case Nil
  show ?case by (simp add: grows_refl)
next
  case (Cons x xs)
  show ?case
    using grows_trans [OF assms [of s x] Cons.IH [of "f x s"]] by simp
qed

lemma grows_events: "grows s (s\<lparr>events := evs\<rparr>)"
  by (simp add: grows_def)

lemma grows_set_listeners: "grows s (set_listeners type ls s)"
  by (simp add: set_listeners_def grows_events)

lemma grows_emit_rpc: "\<not> internal_subscribe cb \<Longrightarrow> grows s (emit_rpc kind params (Some cb) s)"
  by (simp add: grows_def emit_rpc_fields)

lemma grows_log: "grows s (log es s)"
  by (simp add: grows_def log_def)

lemma grows_run_listener: "grows s (run_listener name type l x s)"
  by (cases x)
    (simp_all add: removeListener_handler_def newListener_handler_def Let_def
      grows_emit_rpc grows_refl grows_log)

lemma grows_emit_lifecycle: "grows s (emit_lifecycle name type l s)"
  unfolding emit_lifecycle_def by (rule grows_fold) (rule grows_run_listener)

lemma grows_on: "grows s (on type l s)"
  unfolding on_def Let_def
  by (auto intro: grows_trans grows_set_listeners grows_emit_lifecycle)

lemma grows_removeListener: "grows s (removeListener type l s)"
  unfolding removeListener_def Let_def
  by (auto intro: grows_trans [OF grows_set_listeners grows_emit_lifecycle]
      grows_set_listeners grows_refl)

lemma grows_removeAllListeners_of: "grows s (removeAllListeners_of type s)"
  unfolding removeAllListeners_of_def
  by (auto intro: grows_set_listeners
      grows_trans [OF grows_fold [of "removeListener type", OF grows_removeListener] grows_set_listeners])

lemma grows_removeAllListeners: "grows s (removeAllListeners s)"
proof (cases "listeners s ''removeListener'' = []")
  case True
  then show ?thesis by (simp add: removeAllListeners_def grows_events)
next
  case False
  let ?keys = "filter (\<lambda>k. k \<noteq> ''removeListener'') (map fst (events s))"
  let ?s1 = "fold removeAllListeners_of ?keys s"
  let ?s2 = "removeAllListeners_of ''removeListener'' ?s1"
  have "grows s ?s1" by (rule grows_fold) (rule grows_removeAllListeners_of)
  then have "grows s ?s2" by (rule grows_trans) (rule grows_removeAllListeners_of)
  then have "grows s (?s2\<lparr>events := []\<rparr>)" by (rule grows_trans) (rule grows_events)
  with False show ?thesis by (simp add: removeAllListeners_def Let_def)
qed

lemma removeAllListeners_events: "events (removeAllListeners s) = []"
  by (simp add: removeAllListeners_def Let_def)

lemma emit_release:
  "emit ''release'' [] s =
     (None, s\<lparr>trace := trace s @ Emit ''release'' [] #
                  map (\<lambda>l. Called l ''release'' []) (listeners s ''release'')\<rparr>)"
  by (simp add: emit_def log_def Let_def listeners_def)

lemma release_callback_success:
  "\<not> truthy error \<Longrightarrow>
   run_callback ReleaseCb error result s =
     (None, removeAllListeners (s\<lparr>trace := trace s @ Emit ''release'' [] #
                  map (\<lambda>l. Called l ''release'' []) (listeners s ''release'')\<rparr>))"
  by (simp add: emit_release)

lemmas run_defs = on_def removeListener_def emit_lifecycle_def set_listeners_def listeners_def
  listenerCount_def removeListener_handler_def newListener_handler_def emit_rpc_def log_def
  tokens_get_def tokens_set_def tokens_delete_def inherited_slot_def remove_last_def Let_def
  rpc_emissions_def Object_prototype_members_def builtins_def

lemmas example_defs = run_defs complete_def emit_def release_def removeAllListeners_def
  removeAllListeners_of_def obj1_events obj1_fields

section \<open>Subscription follows the listener count\<close>

lemma length_remove_last: "x \<in> set xs \<Longrightarrow> length (remove_last x xs) = length xs - 1"
  by (simp add: remove_last_def length_remove1)

lemma filter_remove_last: "\<not> P x \<Longrightarrow> filter P (remove_last x xs) = filter P xs"
  by (simp add: remove_last_def filter_remove1 rev_filter [symmetric] remove1_idem)

lemma live_cong: "events s' = events s \<Longrightarrow> live s' = live s"
  by (simp add: live_def listeners_def)

lemma live_obj1: "live obj1"
  by (simp add: live_def listeners_def obj1_events)

lemma on_user_live: "live s \<Longrightarrow> live (on type (User n) s)"
  by (auto simp: live_def on_live [unfolded live_def])

lemma removeListener_live:
  assumes "live s" and "User n \<in> set (listeners s type)"
  shows "rpc_emissions (removeListener type (User n) s) =
           rpc_emissions s @
           (if listenerCount s type = 1
            then [Emit ''_rpc'' [V (JStr ''unsubscribe''),
                    V (JObj [(''subscription'', tokens_get s type)]), C (UnsubscribeCb type)]]
            else [])"
    and "pending (removeListener type (User n) s) =
           pending s @ (if listenerCount s type = 1 then [UnsubscribeCb type] else [])"
    and "tokens (removeListener type (User n) s) = tokens s"
    and "props (removeListener type (User n) s) = props s"
    and "listeners (removeListener type (User n) s) t =
           (if t = type then remove_last (User n) (listeners s type) else listeners s t)"
    and "tokens_proto (removeListener type (User n) s) = tokens_proto s"
    and "heap (removeListener type (User n) s) = heap s"
proof -
  let ?s1 = "set_listeners type (remove_last (User n) (listeners s type)) s"
  have ls1: "\<And>t. listeners ?s1 t =
      (if t = type then remove_last (User n) (listeners s type) else listeners s t)"
    by (simp add: listeners_set_listeners)
  have h: "filter (\<lambda>l. \<not> is_user l) (listeners ?s1 ''removeListener'') = [RemoveListenerHandler]"
    using assms(1) by (auto simp: ls1 live_def filter_remove_last)
  then have ne: "listeners ?s1 ''removeListener'' \<noteq> []" by auto
  let ?s2 = "emit_lifecycle ''removeListener'' type (User n) ?s1"
  have eq: "removeListener type (User n) s = ?s2"
    using assms(2) ne by (simp add: removeListener_def Let_def)
  have cnt: "listenerCount ?s1 type = listenerCount s type - 1"
    using assms(2) by (simp add: listenerCount_def ls1 length_remove_last)
  have pos: "0 < listenerCount s type"
    using assms(2) by (cases "listeners s type") (simp_all add: listenerCount_def)
  have tg: "tokens_get ?s1 type = tokens_get s type"
    by (rule ledger_cong) (simp_all add: set_listeners_fields)
  have req: "handler_request RemoveListenerHandler type ?s1 =
      (if listenerCount s type = 1
       then Some (''unsubscribe'', JObj [(''subscription'', tokens_get s type)], UnsubscribeCb type)
       else None)"
    using pos by (auto simp: handler_request_def cnt tg)
  note f = fold_run_listener [of "''removeListener''" type "User n"
      "listeners ?s1 ''removeListener''" ?s1]
  show "rpc_emissions (removeListener type (User n) s) =
           rpc_emissions s @
           (if listenerCount s type = 1
            then [Emit ''_rpc'' [V (JStr ''unsubscribe''),
                    V (JObj [(''subscription'', tokens_get s type)]), C (UnsubscribeCb type)]]
            else [])"
    using f single_handler [OF h, of request_emission type ?s1]
    by (simp add: eq emit_lifecycle_def req rpc_emissions_def set_listeners_fields)
  show "pending (removeListener type (User n) s) =
           pending s @ (if listenerCount s type = 1 then [UnsubscribeCb type] else [])"
    using f single_handler [OF h, of request_callback type ?s1]
    by (simp add: eq emit_lifecycle_def req set_listeners_fields)
  show "tokens (removeListener type (User n) s) = tokens s"
    by (simp add: eq emit_lifecycle_tables set_listeners_fields)
  show "props (removeListener type (User n) s) = props s"
    by (simp add: eq emit_lifecycle_tables set_listeners_fields)
  have "\<And>t. listeners ?s2 t = listeners ?s1 t"
    by (rule listeners_cong) (simp add: emit_lifecycle_tables)
  then show "listeners (removeListener type (User n) s) t =
           (if t = type then remove_last (User n) (listeners s type) else listeners s t)"
    by (simp add: eq ls1)
  show "tokens_proto (removeListener type (User n) s) = tokens_proto s"
    by (simp add: eq emit_lifecycle_tables set_listeners_fields)
  show "heap (removeListener type (User n) s) = heap s"
    by (simp add: eq emit_lifecycle_tables set_listeners_fields)
qed



lemma tokens_set_fields:
  "events (tokens_set event token s) = events s"
  "props (tokens_set event token s) = props s"
  "trace (tokens_set event token s) = trace s"
  "pending (tokens_set event token s) = pending s"
  "heap (tokens_set event token s) = heap s"
  by (simp_all add: tokens_set_def split: option.splits slot.splits)

lemma tokens_set_other:
  "e \<noteq> event \<Longrightarrow> tokens (tokens_set event token s) e = tokens s e"
  by (simp add: tokens_set_def split: option.splits slot.splits)

lemma tokens_set_stores:
  assumes "stores s event"
  shows "tokens_set event token s = s\<lparr>tokens := (tokens s)(event \<mapsto> token)\<rparr>"
  using assms by (auto simp: tokens_set_def stores_def split: option.splits slot.splits)

lemma tokens_delete_fields:
  "events (tokens_delete event s) = events s"
  "props (tokens_delete event s) = props s"
  "trace (tokens_delete event s) = trace s"
  "pending (tokens_delete event s) = pending s"
  "heap (tokens_delete event s) = heap s"
  "tokens_proto (tokens_delete event s) = tokens_proto s"
  "tokens (tokens_delete event s) = (tokens s)(event := None)"
  by (simp_all add: tokens_delete_def)

lemma subscribed_live:
  "live s \<Longrightarrow> \<not> truthy error \<Longrightarrow> live (snd (run_callback (SubscribeCb type) error token s))"
  by (simp add: live_cong [of "tokens_set type token s" s] tokens_set_fields)


lemma complete_keeps_entry:
  assumes "cb \<noteq> SubscribeCb type" and "cb \<noteq> UnsubscribeCb type"
  shows "tokens (snd (complete cb error result s)) type = tokens s type"
proof (cases cb)
  case (UnsubscribeCb event)
  then show ?thesis using assms
    by (simp add: complete_def emit_error tokens_delete_def)
next
  case (SubscribeCb event)
  then show ?thesis using assms
    by (simp add: complete_def emit_error tokens_set_other)
next
  case ReleaseCb
  let ?s0 = "s\<lparr>pending := remove1 cb (pending s)\<rparr>"
  show ?thesis
  proof (cases "truthy error")
    case True
    then show ?thesis using ReleaseCb by (simp add: complete_def log_def)
  next
    case False
    let ?s1 = "?s0\<lparr>trace := trace ?s0 @ Emit ''release'' [] #
                  map (\<lambda>l. Called l ''release'' []) (listeners ?s0 ''release'')\<rparr>"
    have "tokens (removeAllListeners ?s1) = tokens ?s1"
      using grows_removeAllListeners [of ?s1] by (simp add: grows_def)
    then have "tokens (snd (run_callback ReleaseCb error result ?s0)) type = tokens s type"
      by (simp only: release_callback_success [OF False] snd_conv) simp
    then show ?thesis using ReleaseCb by (simp add: complete_def)
  qed
next
  case (InvokeCb callback)
  have "\<And>args s0. tokens (snd (call_fn callback args s0)) = tokens s0"
    by (cases callback) (simp_all add: log_def)
  then show ?thesis using InvokeCb
    by (simp add: complete_def split: sum.splits)
qed

text \<open>
  Claim C1, as amended. On a live proxy and for an event-type other than \<^verbatim>\<open>release\<close>
  and \<^verbatim>\<open>_rpc\<close>: attaching a listener of application code while there is none emits
  exactly one \<^verbatim>\<open>_rpc\<close> request, \<^verbatim>\<open>subscribe\<close> with \<^verbatim>\<open>{type: E}\<close>, and attaching one
  while there are some emits none; removing the only listener emits exactly one
  \<^verbatim>\<open>_rpc\<close> request, \<^verbatim>\<open>unsubscribe\<close> with what the ledger reads for \<open>E\<close> at that moment,
  and removing one of several emits none. What the ledger reads is the token that the
  subscribe for \<open>E\<close> returned when the ledger stores under \<open>E\<close> and the removal follows
  the completion of that subscribe; and an entry, once stored, stays as it is through
  every operation but the completion of a later subscribe or unsubscribe for \<open>E\<close>.
\<close>

theorem subscription_follows_listener_count:
  assumes "live s" and "type \<noteq> ''release''" and "type \<noteq> ''_rpc''"
  shows
  "(listenerCount s type = 0 \<longrightarrow>
      rpc_emissions (on type (User n) s) =
        rpc_emissions s @
        [Emit ''_rpc'' [V (JStr ''subscribe''), V (JObj [(''type'', JStr type)]),
                        C (SubscribeCb type)]]) \<and>
   (0 < listenerCount s type \<longrightarrow> rpc_emissions (on type (User n) s) = rpc_emissions s) \<and>
   (User n \<in> set (listeners s type) \<and> listenerCount s type = 1 \<longrightarrow>
      rpc_emissions (removeListener type (User n) s) =
        rpc_emissions s @
        [Emit ''_rpc'' [V (JStr ''unsubscribe''),
                        V (JObj [(''subscription'', tokens_get s type)]),
                        C (UnsubscribeCb type)]]) \<and>
   (User n \<in> set (listeners s type) \<and> 1 < listenerCount s type \<longrightarrow>
      rpc_emissions (removeListener type (User n) s) = rpc_emissions s) \<and>
   (listenerCount s type = 0 \<and> \<not> truthy error \<and> stores s type \<longrightarrow>
      tokens (snd (run_callback (SubscribeCb type) error token (on type (User n) s))) type
        = Some token \<and>
      rpc_emissions (removeListener type (User n)
          (snd (run_callback (SubscribeCb type) error token (on type (User n) s)))) =
        rpc_emissions (on type (User n) s) @
        [Emit ''_rpc'' [V (JStr ''unsubscribe''), V (JObj [(''subscription'', token)]),
                        C (UnsubscribeCb type)]]) \<and>
   (tokens s type = Some t \<longrightarrow>
      tokens_get s type = t \<and>
      tokens (on event (User m) s) type = Some t \<and>
      tokens (removeListener event (User m) s) type = Some t \<and>
      tokens (snd (invoke a b c s)) type = Some t \<and>
      tokens (release s) type = Some t \<and>
      (cb \<noteq> SubscribeCb type \<and> cb \<noteq> UnsubscribeCb type \<longrightarrow>
         tokens (snd (complete cb e r s)) type = Some t))"
proof (intro conjI impI)
  assume "listenerCount s type = 0"
  then show "rpc_emissions (on type (User n) s) =
        rpc_emissions s @
        [Emit ''_rpc'' [V (JStr ''subscribe''), V (JObj [(''type'', JStr type)]),
                        C (SubscribeCb type)]]"
    using assms by (simp add: on_live handler_request_def)
next
  assume "0 < listenerCount s type"
  then show "rpc_emissions (on type (User n) s) = rpc_emissions s"
    using assms by (simp add: on_live handler_request_def)
next
  assume "User n \<in> set (listeners s type) \<and> listenerCount s type = 1"
  then show "rpc_emissions (removeListener type (User n) s) =
        rpc_emissions s @
        [Emit ''_rpc'' [V (JStr ''unsubscribe''),
                        V (JObj [(''subscription'', tokens_get s type)]),
                        C (UnsubscribeCb type)]]"
    using assms(1) by (simp add: removeListener_live)
next
  assume "User n \<in> set (listeners s type) \<and> 1 < listenerCount s type"
  then show "rpc_emissions (removeListener type (User n) s) = rpc_emissions s"
    using assms(1) by (simp add: removeListener_live)
next
  assume a: "listenerCount s type = 0 \<and> \<not> truthy error \<and> stores s type"
  let ?s1 = "on type (User n) s"
  have st: "stores ?s1 type"
    using a ledger_cong(3) [of ?s1 s type] by (simp add: on_live [OF assms(1)])
  show "tokens (snd (run_callback (SubscribeCb type) error token ?s1)) type = Some token"
    using a by (simp add: tokens_set_stores [OF st])
next
  assume a: "listenerCount s type = 0 \<and> \<not> truthy error \<and> stores s type"
  let ?s1 = "on type (User n) s"
  let ?s2 = "snd (run_callback (SubscribeCb type) error token ?s1)"
  have l1: "live ?s1" using assms(1) by (rule on_user_live)
  have st: "stores ?s1 type"
    using a ledger_cong(3) [of ?s1 s type] by (simp add: on_live [OF assms(1)])
  have s2: "?s2 = ?s1\<lparr>tokens := (tokens ?s1)(type \<mapsto> token)\<rparr>"
    using a by (simp add: tokens_set_stores [OF st])
  have e2: "events ?s2 = events ?s1" "trace ?s2 = trace ?s1" by (simp_all only: s2) simp_all
  have l2: "live ?s2" using l1 by (simp only: live_cong [OF e2(1)])
  have ls: "listeners ?s2 type = [User n]"
    using a listeners_cong [OF e2(1), of type] on_live(5) [OF assms(1), of type "User n" type]
    by (simp add: listenerCount_def)
  have tk: "tokens_get ?s2 type = token" by (simp only: s2) (simp add: tokens_get_def)
  have "rpc_emissions (removeListener type (User n) ?s2) =
        rpc_emissions ?s2 @
        [Emit ''_rpc'' [V (JStr ''unsubscribe''), V (JObj [(''subscription'', token)]),
                        C (UnsubscribeCb type)]]"
    using removeListener_live(1) [OF l2, of n type] ls tk by (simp add: listenerCount_def)
  then show "rpc_emissions (removeListener type (User n) ?s2) =
        rpc_emissions ?s1 @
        [Emit ''_rpc'' [V (JStr ''unsubscribe''), V (JObj [(''subscription'', token)]),
                        C (UnsubscribeCb type)]]"
    by (simp only: rpc_emissions_def e2(2))
next
  assume "tokens s type = Some t"
  then show "tokens_get s type = t" by (simp add: tokens_get_def)
next
  assume "tokens s type = Some t"
  then show "tokens (on event (User m) s) type = Some t"
    using grows_on [of s event "User m"] by (simp add: grows_def)
next
  assume "tokens s type = Some t"
  then show "tokens (removeListener event (User m) s) type = Some t"
    using grows_removeListener [of s event "User m"] by (simp add: grows_def)
next
  assume "tokens s type = Some t"
  then show "tokens (snd (invoke a b c s)) type = Some t"
    by (simp add: invoke_def Let_def emit_rpc_fields)
next
  assume "tokens s type = Some t"
  then show "tokens (release s) type = Some t"
    by (simp add: release_def emit_rpc_fields)
next
  assume "tokens s type = Some t" and "cb \<noteq> SubscribeCb type \<and> cb \<noteq> UnsubscribeCb type"
  then show "tokens (snd (complete cb e r s)) type = Some t"
    by (simp add: complete_keeps_entry)
qed

lemma obj1_added:
  "on ''Error'' (User 0) obj1 =
     obj1\<lparr>events := events obj1 @ [(''Error'', [User 0])],
          trace := trace obj1 @ [Emit ''_rpc'' [V (JStr ''subscribe''),
             V (JObj [(''type'', JStr ''Error'')]), C (SubscribeCb ''Error'')]],
          pending := [SubscribeCb ''Error'']\<rparr>"
  by (simp add: run_defs obj1_events obj1_fields)

lemma obj1_stores_Error: "stores obj1 ''Error''"
  by (simp add: stores_def inherited_slot_def obj1_fields Object_prototype_members_def builtins_def)

theorem subscription_follows_listener_count_witness:
  "rpc_emissions (on ''Error'' (User 0) obj1) =
     [Emit ''_rpc'' [V (JStr ''subscribe''), V (JObj [(''type'', JStr ''Error'')]),
                     C (SubscribeCb ''Error'')]] \<and>
   rpc_emissions (removeListener ''Error'' (User 0)
       (snd (run_callback (SubscribeCb ''Error'') Null (JStr ''tok-7'')
              (on ''Error'' (User 0) obj1)))) =
     [Emit ''_rpc'' [V (JStr ''subscribe''), V (JObj [(''type'', JStr ''Error'')]),
                     C (SubscribeCb ''Error'')],
      Emit ''_rpc'' [V (JStr ''unsubscribe''), V (JObj [(''subscription'', JStr ''tok-7'')]),
                     C (UnsubscribeCb ''Error'')]] \<and>
   rpc_emissions (on ''Error'' (User 1) (on ''Error'' (User 0) obj1)) =
     rpc_emissions (on ''Error'' (User 0) obj1) \<and>
   rpc_emissions (removeListener ''toString'' (User 6) (on ''toString'' (User 6) obj1)) =
     rpc_emissions (on ''toString'' (User 6) obj1) @
     [Emit ''_rpc'' [V (JStr ''unsubscribe''), V (JObj [(''subscription'', JFun 1005)]),
                     C (UnsubscribeCb ''toString'')]]"
proof -
  have t: "User 6 \<in> set (listeners (on ''toString'' (User 6) obj1) ''toString'')"
    "listenerCount (on ''toString'' (User 6) obj1) ''toString'' = 1"
    "tokens_get (on ''toString'' (User 6) obj1) ''toString'' = JFun 1005"
    by code_simp+
  show ?thesis
    using subscription_follows_listener_count [OF live_obj1, where type = "''Error''" and n = 0
        and error = Null and token = "JStr ''tok-7''"]
      subscription_follows_listener_count [OF on_user_live [OF live_obj1, where type = "''Error''"
        and n = 0], where type = "''Error''" and n = 1 and error = Null and token = Null]
      subscription_follows_listener_count [OF on_user_live [OF live_obj1, where type = "''toString''"
        and n = 6], where type = "''toString''" and n = 6]
      obj1_stores_Error t
    by (simp add: obj1_added listenerCount_def listeners_def obj1_events obj1_fields
        rpc_emissions_def)
qed

text \<open>
  Claim C1 as stated fails. In \<open>overlapping_run\<close> the last subscribe for \<^verbatim>\<open>Error\<close>
  returned \<^verbatim>\<open>tok-2\<close>, the proxy is live, nothing is pending, and removing the only
  listener unsubscribes with \<^verbatim>\<open>undefined\<close>. In \<open>proto_listener_run\<close> the subscribe for
  \<^verbatim>\<open>__proto__\<close> returned \<^verbatim>\<open>tok-9\<close> and removing the only listener unsubscribes with
  \<^verbatim>\<open>Object.prototype\<close>. And in \<open>released_run\<close>, after a release, attaching the first
  listener for \<^verbatim>\<open>Error\<close> emits nothing.
\<close>

theorem unsubscribe_token_not_the_one_returned:
  "live overlapping_run \<and> pending overlapping_run = [] \<and>
   listeners overlapping_run ''Error'' = [User 0] \<and>
   rpc_emissions (removeListener ''Error'' (User 0) overlapping_run) =
     rpc_emissions overlapping_run @
     [Emit ''_rpc'' [V (JStr ''unsubscribe''), V (JObj [(''subscription'', Undefined)]),
                     C (UnsubscribeCb ''Error'')]] \<and>
   live proto_listener_run \<and> pending proto_listener_run = [] \<and>
   listeners proto_listener_run ''__proto__'' = [User 5] \<and>
   rpc_emissions (removeListener ''__proto__'' (User 5) proto_listener_run) =
     rpc_emissions proto_listener_run @
     [Emit ''_rpc'' [V (JStr ''unsubscribe''), V (JObj [(''subscription'', JRef 2)]),
                     C (UnsubscribeCb ''__proto__'')]] \<and>
   listenerCount released_run ''Error'' = 0 \<and>
   rpc_emissions (on ''Error'' (User 0) released_run) = rpc_emissions released_run"
  by code_simp

section \<open>Release\<close>

text \<open>
  Claim C5. When the release request completes successfully, the callback returns
  normally; it first emits \<^verbatim>\<open>release\<close>, which runs the listeners of \<^verbatim>\<open>release\<close>
  registered at that moment, and whatever it does after that, it ends with an empty
  listener table: no listener of any event-type is left.
\<close>
theorem release_success_detaches_everything:
  "\<not> truthy error \<Longrightarrow>
   fst (run_callback ReleaseCb error result s) = None \<and>
   (\<exists>es. trace (snd (run_callback ReleaseCb error result s)) =
      trace s @ Emit ''release'' [] # map (\<lambda>l. Called l ''release'' []) (listeners s ''release'')
        @ es) \<and>
   events (snd (run_callback ReleaseCb error result s)) = [] \<and>
   listenerCount (snd (run_callback ReleaseCb error result s)) type = 0"
proof -
  assume ok: "\<not> truthy error"
  let ?s1 = "s\<lparr>trace := trace s @ Emit ''release'' [] #
                  map (\<lambda>l. Called l ''release'' []) (listeners s ''release'')\<rparr>"
  have r: "run_callback ReleaseCb error result s = (None, removeAllListeners ?s1)"
    using ok by (rule release_callback_success)
  from grows_removeAllListeners [of ?s1]
  obtain es where "trace (removeAllListeners ?s1) = trace ?s1 @ es"
    unfolding grows_def by blast
  then have "\<exists>es. trace (removeAllListeners ?s1) =
      trace s @ Emit ''release'' [] # map (\<lambda>l. Called l ''release'' []) (listeners s ''release'')
        @ es"
    by simp
  then show ?thesis
    by (simp only: r fst_conv snd_conv removeAllListeners_events listenerCount_def listeners_def)
       simp
qed

lemma obj1_release_listener:
  "on ''release'' (User 3) obj1 = obj1\<lparr>events := events obj1 @ [(''release'', [User 3])]\<rparr>"
  by (simp add: run_defs obj1_events obj1_fields)

theorem release_success_detaches_everything_witness:
  "fst (run_callback ReleaseCb Null Undefined (on ''release'' (User 3) obj1)) = None \<and>
   take 3 (trace (snd (run_callback ReleaseCb Null Undefined (on ''release'' (User 3) obj1)))) =
     [ParentEmit (JRef 0) ''mediaObject'' [JRef 1], Emit ''release'' [],
      Called (User 3) ''release'' []] \<and>
   listenerCount (snd (run_callback ReleaseCb Null Undefined (on ''release'' (User 3) obj1)))
     ''release'' = 0"
  using release_success_detaches_everything [where error = Null and result = Undefined
      and s = "on ''release'' (User 3) obj1" and type = "''release''"]
  by (auto simp: obj1_release_listener listeners_def obj1_events obj1_fields)


lemma defineProperty_fields:
  "defineProperty key v s = Inr s' \<Longrightarrow>
   events s' = events s \<and> tokens s' = tokens s \<and> trace s' = trace s \<and> pending s' = pending s \<and>
   tokens_proto s' = tokens_proto s \<and> heap s' = heap s"
  by (auto simp: defineProperty_def split: option.splits if_splits)

lemma defineProperties_fields:
  "defineProperties kvs s = Inr s' \<Longrightarrow>
   events s' = events s \<and> tokens s' = tokens s \<and> trace s' = trace s \<and> pending s' = pending s \<and>
   tokens_proto s' = tokens_proto s \<and> heap s' = heap s"
proof (induction kvs arbitrary: s)
  case Nil
  then show ?case by simp
next
  case (Cons kv kvs)
  obtain k v where kv: "kv = (k, v)" by (cases kv)
  from Cons.prems kv obtain s1 where 1: "defineProperty k v s = Inr s1"
    and 2: "defineProperties kvs s1 = Inr s'"
    by (auto split: sum.splits)
  from Cons.IH [OF 2] defineProperty_fields [OF 1] show ?case by simp
qed

lemma registered_handlers:
  assumes "events s1 = []"
  shows "events (on ''newListener'' NewListenerHandler (on ''removeListener'' RemoveListenerHandler s1)) =
           [(''removeListener'', [RemoveListenerHandler]), (''newListener'', [NewListenerHandler])]"
    and "tokens (on ''newListener'' NewListenerHandler (on ''removeListener'' RemoveListenerHandler s1)) = tokens s1"
    and "pending (on ''newListener'' NewListenerHandler (on ''removeListener'' RemoveListenerHandler s1)) = pending s1"
    and "trace (on ''newListener'' NewListenerHandler (on ''removeListener'' RemoveListenerHandler s1)) = trace s1"
    and "props (on ''newListener'' NewListenerHandler (on ''removeListener'' RemoveListenerHandler s1)) = props s1"
    and "tokens_proto (on ''newListener'' NewListenerHandler (on ''removeListener'' RemoveListenerHandler s1)) = tokens_proto s1"
    and "heap (on ''newListener'' NewListenerHandler (on ''removeListener'' RemoveListenerHandler s1)) = heap s1"
  using assms by (simp_all add: on_def listeners_def set_listeners_def Let_def)











section \<open>Construction\<close>

lemma frozen_iff:
  "d = frozen v \<longleftrightarrow> dvalue d = v \<and> \<not> writable d \<and> \<not> enumerable d \<and> \<not> configurable d"
  by (cases d) (auto simp: frozen_def)

lemma Some_frozen_iff:
  "Some d = Some (frozen v) \<longleftrightarrow> dvalue d = v \<and> \<not> writable d \<and> \<not> enumerable d \<and> \<not> configurable d"
  by (simp add: frozen_iff)

lemma defineProperty_frozen:
  assumes "defineProperty key v s = Inr s'" and "defined_frozen names s"
  shows "defined_frozen names s'"
    and "key \<notin> set names \<Longrightarrow> map_of (props s') key = Some (frozen v)"
    and "k \<notin> set names \<Longrightarrow> map_of (props s) k = Some (frozen w) \<Longrightarrow>
         map_of (props s') k = Some (frozen w)"
proof -
  show "defined_frozen names s'"
    using assms
    by (auto simp: defineProperty_def defined_frozen_def frozen_iff update_conv' map_add_def
        split: option.splits if_splits)
  show "key \<notin> set names \<Longrightarrow> map_of (props s') key = Some (frozen v)"
    using assms
    by (auto simp: defineProperty_def defined_frozen_def frozen_iff update_conv' map_add_def
        split: option.splits if_splits)
  show "k \<notin> set names \<Longrightarrow> map_of (props s) k = Some (frozen w) \<Longrightarrow>
         map_of (props s') k = Some (frozen w)"
    using assms
    by (auto simp: defineProperty_def defined_frozen_def frozen_iff update_conv' map_add_def
        split: option.splits if_splits)
qed

lemma defineProperties_frozen:
  assumes "defineProperties kvs s = Inr s'" and "defined_frozen names s"
  shows "defined_frozen names s' \<and>
         (\<forall>k w. k \<notin> set names \<longrightarrow>
            ((k, w) \<in> set kvs \<or> map_of (props s) k = Some (frozen w)) \<longrightarrow>
            map_of (props s') k = Some (frozen w))"
  using assms
proof (induction kvs arbitrary: s)
  case Nil
  then show ?case by simp
next
  case (Cons kv kvs)
  obtain key v where kv: "kv = (key, v)" by (cases kv)
  from Cons.prems(1) kv obtain s1 where 1: "defineProperty key v s = Inr s1"
    and 2: "defineProperties kvs s1 = Inr s'"
    by (auto split: sum.splits)
  note d = defineProperty_frozen [OF 1 Cons.prems(2)]
  note ih = Cons.IH [OF 2 d(1)]
  show ?case
  proof (intro conjI allI impI)
    show "defined_frozen names s'" using ih by simp
  next
    fix k w
    assume k: "k \<notin> set names"
      and c: "(k, w) \<in> set (kv # kvs) \<or> map_of (props s) k = Some (frozen w)"
    from c kv consider "k = key \<and> w = v" | "(k, w) \<in> set kvs" | "map_of (props s) k = Some (frozen w)"
      by auto
    then have "(k, w) \<in> set kvs \<or> map_of (props s1) k = Some (frozen w)"
    proof cases
      case 1
      then show ?thesis using d(2) k by simp
    next
      case 2
      then show ?thesis by simp
    next
      case 3
      then show ?thesis using d(3) [OF k] by simp
    qed
    with ih k show "map_of (props s') k = Some (frozen w)" by blast
  qed
qed

lemma map_of_assigned:
  "map_of (map (\<lambda>(k, v). (k, assigned v)) kvs) k = Some d \<Longrightarrow> k \<in> set (map fst kvs)"
  by (induction kvs) (auto split: if_splits)

lemma EventEmitter_call_frozen: "defined_frozen (field_names pf) (EventEmitter_call pf)"
  by (auto simp: defined_frozen_def EventEmitter_call_def field_names_def dest: map_of_assigned)

text \<open>
  Claim C8, as amended. When construction succeeds, every supplied property whose name is
  not one of the own fields that the emitter assigned is an own property of the proxy
  with the supplied value that is not writable, not configurable and not enumerable; so
  are \<^verbatim>\<open>id\<close>, \<^verbatim>\<open>parent\<close> and \<^verbatim>\<open>pipeline\<close>, when the emitter has no field of that name;
  and with no pipeline argument the value of \<^verbatim>\<open>pipeline\<close> is the proxy itself.
\<close>

theorem constructor_defines_frozen_properties:
  assumes "MediaObject pf self oid parent pipeline params = Inr s"
  shows "((k, v) \<in> set params \<and> k \<notin> set (field_names pf) \<longrightarrow>
            map_of (props s) k =
              Some \<lparr>dvalue = v, writable = False, enumerable = False, configurable = False\<rparr>) \<and>
         (''id'' \<notin> set (field_names pf) \<longrightarrow>
            map_of (props s) ''id'' =
              Some \<lparr>dvalue = oid, writable = False, enumerable = False, configurable = False\<rparr>) \<and>
         (''parent'' \<notin> set (field_names pf) \<longrightarrow>
            map_of (props s) ''parent'' =
              Some \<lparr>dvalue = parent, writable = False, enumerable = False,
                     configurable = False\<rparr>) \<and>
         (''pipeline'' \<notin> set (field_names pf) \<longrightarrow>
            map_of (props s) ''pipeline'' =
              Some \<lparr>dvalue = (if truthy pipeline then pipeline else self), writable = False,
                     enumerable = False, configurable = False\<rparr>) \<and>
         (''pipeline'' \<notin> set (field_names pf) \<and> pipeline = Undefined \<longrightarrow>
            map_of (props s) ''pipeline'' =
              Some \<lparr>dvalue = self, writable = False, enumerable = False, configurable = False\<rparr>)"
proof -
  let ?names = "field_names pf"
  let ?s3 = "\<lambda>s1. on ''newListener'' NewListenerHandler (on ''removeListener'' RemoveListenerHandler s1)"
  from assms obtain s1 s4 s5 s6 where
    1: "defineProperties params (EventEmitter_call pf) = Inr s1" and
    4: "defineProperty ''id'' oid (?s3 s1) = Inr s4" and
    5: "defineProperty ''parent'' parent s4 = Inr s5" and
    6: "defineProperty ''pipeline'' (if truthy pipeline then pipeline else self) s5 = Inr s6" and
    s: "s = log [ParentEmit parent ''mediaObject'' [self]] s6"
    by (auto simp: MediaObject_def Let_def split: sum.splits jsval.splits)
  have e1: "events s1 = []"
    using defineProperties_fields [OF 1] by (simp add: EventEmitter_call_def)
  have p3: "props (?s3 s1) = props s1" using registered_handlers(5) [OF e1] .
  note f1 = defineProperties_frozen [OF 1 EventEmitter_call_frozen]
  have fr3: "defined_frozen ?names (?s3 s1)" using f1 by (simp add: defined_frozen_def p3)
  note d4 = defineProperty_frozen [OF 4 fr3]
  note d5 = defineProperty_frozen [OF 5 d4(1)]
  note d6 = defineProperty_frozen [OF 6 d5(1)]
  have ps: "props s = props s6" by (simp add: s log_def)
  have keep: "\<And>k w. k \<notin> set ?names \<Longrightarrow> map_of (props (?s3 s1)) k = Some (frozen w) \<Longrightarrow>
      map_of (props s) k = Some (frozen w)"
    using d4(3) d5(3) d6(3) by (simp add: ps)
  have a: "(k, v) \<in> set params \<and> k \<notin> set ?names \<longrightarrow> map_of (props s) k = Some (frozen v)"
    using f1 keep [of k v] by (auto simp: p3)
  have b: "''id'' \<notin> set ?names \<longrightarrow> map_of (props s) ''id'' = Some (frozen oid)"
    using d4(2) d5(3) d6(3) by (simp add: ps)
  have c: "''parent'' \<notin> set ?names \<longrightarrow> map_of (props s) ''parent'' = Some (frozen parent)"
    using d5(2) d6(3) by (simp add: ps)
  have d: "''pipeline'' \<notin> set ?names \<longrightarrow>
      map_of (props s) ''pipeline'' = Some (frozen (if truthy pipeline then pipeline else self))"
    using d6(2) by (simp add: ps)
  from a b c d show ?thesis by (simp add: frozen_def)
qed

theorem constructor_defines_frozen_properties_witness:
  "map_of (props (projr (MediaObject node (JRef 1) (JStr ''obj-1'') (JRef 0) Undefined
            [(''collectOnUnreferenced'', JBool True)]))) ''collectOnUnreferenced'' =
     Some \<lparr>dvalue = JBool True, writable = False, enumerable = False, configurable = False\<rparr> \<and>
   map_of (props (projr (MediaObject node (JRef 1) (JStr ''obj-1'') (JRef 0) Undefined
            [(''collectOnUnreferenced'', JBool True)]))) ''id'' =
     Some \<lparr>dvalue = JStr ''obj-1'', writable = False, enumerable = False, configurable = False\<rparr> \<and>
   map_of (props (projr (MediaObject node (JRef 1) (JStr ''obj-1'') (JRef 0) Undefined
            [(''collectOnUnreferenced'', JBool True)]))) ''pipeline'' =
     Some \<lparr>dvalue = JRef 1, writable = False, enumerable = False, configurable = False\<rparr>"
proof -
  have c: "MediaObject node (JRef 1) (JStr ''obj-1'') (JRef 0) Undefined
            [(''collectOnUnreferenced'', JBool True)] =
          Inr (projr (MediaObject node (JRef 1) (JStr ''obj-1'') (JRef 0) Undefined
            [(''collectOnUnreferenced'', JBool True)]))"
    by (simp add: construct_defs)
  show ?thesis
    using constructor_defines_frozen_properties [OF c, of "''collectOnUnreferenced''" "JBool True"]
    by (simp add: field_names_def node_def)
qed

text \<open>
  Claim C8 as stated fails: a supplied property is not enumerable (an absent
  \<^verbatim>\<open>enumerable\<close> defaults to false), and a supplied \<^verbatim>\<open>_events\<close> only overwrites the
  value of the emitter's field, which stays writable.
\<close>

theorem supplied_properties_not_enumerable:
  "\<not> isl (MediaObject node (JRef 1) (JStr ''obj-1'') (JRef 0) Undefined
            [(''collectOnUnreferenced'', JBool True)]) \<and>
   map_option enumerable
     (map_of (props (projr (MediaObject node (JRef 1) (JStr ''obj-1'') (JRef 0) Undefined
            [(''collectOnUnreferenced'', JBool True)]))) ''collectOnUnreferenced'') = Some False \<and>
   \<not> isl (MediaObject node (JRef 1) (JStr ''obj-1'') (JRef 0) Undefined [(''_events'', JObj [])]) \<and>
   map_option writable
     (map_of (props (projr (MediaObject node (JRef 1) (JStr ''obj-1'') (JRef 0) Undefined
            [(''_events'', JObj [])]))) ''_events'') = Some True"
  by (simp add: construct_defs)


section \<open>Ledger and listener count\<close>


























end
